theory Spec2Isabelle
  imports Main "HOL-Library.Sublist" "HOL-Library.AList"
begin

section \<open>The incremental SSE parser (SSEParser.ts)\<close>

text \<open>
  JavaScript strings are modelled as \<open>string\<close> (lists of 8-bit characters); the parser only
  ever inspects the ASCII characters CR, LF, colon, space and NUL, so nothing depends on the
  width of a code unit.  The parser is an event emitter: a call of \<open>feed\<close> is modelled as
  returning the new parser state together with the events emitted during the call, in order.
\<close>

abbreviation CR :: char where "CR \<equiv> CHR 0x0D"
abbreviation LF :: char where "LF \<equiv> CHR 0x0A"
abbreviation NUL :: char where "NUL \<equiv> CHR 0x00"

abbreviation CRLFCRLF :: string where "CRLFCRLF \<equiv> [CR, LF, CR, LF]"

record SSEEvent =
  ev_type :: string
  ev_data :: string
  ev_id :: "string option"
  ev_retry :: "int option"

record SSEParser =
  buffer :: string
  eventType :: string
  eventData :: "string list"
  eventId :: "string option"
  lastEventId :: "string option"
  retryInterval :: "int option"
  httpHeadersParsed :: bool

text \<open>The field initialisers of the class: the state of \<open>new SSEParser()\<close>.\<close>

definition newParser :: SSEParser where
  "newParser = \<lparr> buffer = [], eventType = ''message'', eventData = [], eventId = None,
     lastEventId = None, retryInterval = None, httpHeadersParsed = False \<rparr>"

text \<open>\<open>String.prototype.indexOf\<close>: the first index at which the pattern occurs,
  \<open>None\<close> for the result -1.\<close>

fun indexOf :: "string \<Rightarrow> string \<Rightarrow> nat option" where
  "indexOf [] pat = (if pat = [] then Some 0 else None)"
| "indexOf (c # cs) pat =
     (if prefix pat (c # cs) then Some 0 else map_option Suc (indexOf cs pat))"

text \<open>\<open>buffer.split(/\r?\n/)\<close>: the regular expression is matched leftmost-first, so every
  LF ends a piece, and a CR standing immediately before that LF belongs to the separator.
  The result always has at least one piece; the last one is the text after the last LF.\<close>

fun consHead :: "char \<Rightarrow> string list \<Rightarrow> string list" where
  "consHead c [] = [[c]]"
| "consHead c (l # ls) = (c # l) # ls"

fun splitLines :: "string \<Rightarrow> string list" where
  "splitLines [] = [[]]"
| "splitLines [c] = (if c = LF then [[], []] else [[c]])"
| "splitLines (c # d # cs) =
     (if c = LF then [] # splitLines (d # cs)
      else if c = CR \<and> d = LF then [] # splitLines cs
      else consHead c (splitLines (d # cs)))"

text \<open>\<open>Array.prototype.join\<close> of the data lines.\<close>

fun join :: "string \<Rightarrow> string list \<Rightarrow> string" where
  "join sep [] = []"
| "join sep [x] = x"
| "join sep (x # y # ys) = x @ sep @ join sep (y # ys)"

text \<open>\<open>parseInt(value, 10)\<close>: leading white space is skipped, an optional sign is read, then
  the longest run of decimal digits; \<open>None\<close> stands for NaN (no digit).  The model keeps the
  exact integer where JavaScript rounds to a double beyond 2^53.\<close>

definition isWhiteSpace :: "char \<Rightarrow> bool" where
  "isWhiteSpace c = (c = CHR 0x09 \<or> c = CHR 0x0A \<or> c = CHR 0x0B \<or> c = CHR 0x0C \<or> c = CHR 0x0D
     \<or> c = CHR 0x20 \<or> c = CHR 0xA0)"

definition isDigit :: "char \<Rightarrow> bool" where
  "isDigit c = (48 \<le> (of_char c :: nat) \<and> (of_char c :: nat) \<le> 57)"

definition digitValue :: "char \<Rightarrow> int" where
  "digitValue c = int (of_char c) - 48"

fun digitsValue :: "int \<Rightarrow> string \<Rightarrow> int" where
  "digitsValue acc [] = acc"
| "digitsValue acc (c # cs) = digitsValue (acc * 10 + digitValue c) cs"

definition parseInt :: "string \<Rightarrow> int option" where
  "parseInt s =
     (let t = dropWhile isWhiteSpace s;
          neg = (t \<noteq> [] \<and> hd t = CHR ''-'');
          u = (if t \<noteq> [] \<and> (hd t = CHR ''-'' \<or> hd t = CHR ''+'') then tl t else t);
          ds = takeWhile isDigit u
      in if ds = [] then None
         else Some (if neg then - digitsValue 0 ds else digitsValue 0 ds))"

definition resetEvent :: "SSEParser \<Rightarrow> SSEParser" where
  "resetEvent p = p\<lparr> eventType := ''message'', eventData := [], eventId := None \<rparr>"

definition dispatchEvent :: "SSEParser \<Rightarrow> SSEParser \<times> SSEEvent list" where
  "dispatchEvent p =
     (if eventData p = [] then (resetEvent p, [])
      else
        let event = \<lparr> ev_type = eventType p, ev_data = join [LF] (eventData p),
                      ev_id = eventId p, ev_retry = retryInterval p \<rparr>;
            p1 = (case eventId p of None \<Rightarrow> p | Some i \<Rightarrow> p\<lparr> lastEventId := Some i \<rparr>)
        in (resetEvent p1, [event]))"

definition processField :: "SSEParser \<Rightarrow> string \<Rightarrow> string \<Rightarrow> SSEParser" where
  "processField p field val =
     (if field = ''event'' then p\<lparr> eventType := val \<rparr>
      else if field = ''data'' then p\<lparr> eventData := eventData p @ [val] \<rparr>
      else if field = ''id'' then (if NUL \<in> set val then p else p\<lparr> eventId := Some val \<rparr>)
      else if field = ''retry'' then
        (case parseInt val of
           None \<Rightarrow> p
         | Some retry \<Rightarrow> if retry \<ge> 0 then p\<lparr> retryInterval := Some retry \<rparr> else p)
      else p)"

definition processLine :: "SSEParser \<Rightarrow> string \<Rightarrow> SSEParser \<times> SSEEvent list" where
  "processLine p line =
     (if line = [] then dispatchEvent p
      else if hd line = CHR '':'' then (p, [])
      else
        (case indexOf line '':'' of
           None \<Rightarrow> (processField p line [], [])
         | Some colonIndex \<Rightarrow>
             let field = take colonIndex line;
                 val = drop (colonIndex + 1) line;
                 val' = (if val \<noteq> [] \<and> hd val = CHR '' '' then drop 1 val else val)
             in (processField p field val', [])))"

fun processLines :: "SSEParser \<Rightarrow> string list \<Rightarrow> SSEParser \<times> SSEEvent list" where
  "processLines p [] = (p, [])"
| "processLines p (l # ls) =
     (case processLine p l of (p1, es1) \<Rightarrow>
        (case processLines p1 ls of (p2, es2) \<Rightarrow> (p2, es1 @ es2)))"

definition processBuffer :: "SSEParser \<Rightarrow> SSEParser \<times> SSEEvent list" where
  "processBuffer p =
     (let lines = splitLines (buffer p);
          rest = (if lines = [] then [] else last lines)
      in processLines (p\<lparr> buffer := rest \<rparr>) (butlast lines))"

definition feed :: "SSEParser \<Rightarrow> string \<Rightarrow> SSEParser \<times> SSEEvent list" where
  "feed p chunk =
     (let p1 = p\<lparr> buffer := buffer p @ chunk \<rparr>
      in if \<not> httpHeadersParsed p1 then
           (case indexOf (buffer p1) CRLFCRLF of
              Some headerEnd \<Rightarrow>
                processBuffer (p1\<lparr> buffer := drop (headerEnd + 4) (buffer p1),
                                    httpHeadersParsed := True \<rparr>)
            | None \<Rightarrow> (p1, []))
         else processBuffer p1)"

definition reset :: "SSEParser \<Rightarrow> SSEParser" where
  "reset p = (resetEvent (p\<lparr> buffer := [], httpHeadersParsed := False \<rparr>))
               \<lparr> lastEventId := None, retryInterval := None \<rparr>"

text \<open>A sequence of \<open>feed\<close> calls on one parser, with the events of all calls in order.\<close>

fun feedAll :: "SSEParser \<Rightarrow> string list \<Rightarrow> SSEParser \<times> SSEEvent list" where
  "feedAll p [] = (p, [])"
| "feedAll p (c # cs) =
     (case feed p c of (p1, es1) \<Rightarrow>
        (case feedAll p1 cs of (p2, es2) \<Rightarrow> (p2, es1 @ es2)))"


section \<open>The transport (ITransport.ts, ZitiSSETransport.ts, Queue.ts, ZitiConnection.ts)\<close>

text \<open>
  The transport is an event emitter driven by callbacks.  Every method and handler is modelled
  as a function from the transport's fields to the updated fields and the list of observable
  effects of the call, in program order: notifications to the consumer (\<open>emit\<close>), completion
  of request promises, timers cleared, calls on the stream and on the HTTP collaborator, and
  \<open>logger.error\<close> lines.  The options are fixed at construction and passed as a parameter.
\<close>

datatype TransportState = DISCONNECTED | CONNECTING | CONNECTED | RECONNECTING | CLOSED

record TransportOptions =
  autoReconnect :: bool
  maxReconnectAttempts :: int
  reconnectDelay :: int
  connectTimeout :: int
  requestTimeout :: int

text \<open>The defaults of the \<open>BaseTransport\<close> constructor.\<close>

definition defaultOptions :: TransportOptions where
  "defaultOptions = \<lparr> autoReconnect = True, maxReconnectAttempts = 3, reconnectDelay = 1000,
     connectTimeout = 30000, requestTimeout = 60000 \<rparr>"

text \<open>JSON values, for the members of a message that the transport passes through unread.\<close>

datatype json = JNull | JBool bool | JNum int | JStr string | JArr "json list"
  | JObj "(string \<times> json) list"

text \<open>The interface \<open>MCPMessage\<close>: \<open>id?: string | number\<close>, and an \<open>error\<close> member that is
  an object with a code and a message when it is present.\<close>

datatype MessageId = IdNum int | IdStr string

record RpcError =
  err_code :: int
  err_message :: string
  err_data :: "json option"

record MCPMessage =
  msg_id :: "MessageId option"
  msg_method :: "string option"
  msg_params :: "json option"
  msg_result :: "json option"
  msg_error :: "RpcError option"

text \<open>An entry of the \<open>pendingRequests\<close> map.  Its \<open>resolve\<close> and \<open>reject\<close> closures belong to
  the promise returned by one \<open>request\<close> call, named here by a number, as is the timer.\<close>

record PendingRequest =
  promise :: nat
  timeout :: nat

text \<open>\<open>ZitiStreamImpl\<close>, as far as the transport sees it.\<close>

record ZitiStream =
  handle :: nat
  isOpen :: bool

record HttpResponse =
  status :: int
  body :: string

datatype effect =
    Emit_stateChange TransportState
  | Emit_connected
  | Emit_disconnected string
  | Emit_reconnecting nat
  | Emit_error string
  | Emit_message MCPMessage
  | ClearTimeout nat
  | SetTimeout nat int
  | Resolve nat "json option"
  | Reject nat string
  | ZitiClose nat
  | HttpPost string MCPMessage
  | LogError string
  | AwaitDelayThenConnect int

text \<open>The fields of \<open>ZitiSSETransport\<close> (with those of \<open>BaseTransport\<close>).  The map
  \<open>pendingRequests\<close> is an association list in insertion order, which is the order in which a
  JavaScript \<open>Map\<close> is iterated; \<open>messageQueue\<close> is the \<open>items\<close> array of the \<open>Queue\<close>.\<close>

record Transport =
  state :: TransportState
  sessionId :: "string option"
  stream :: "ZitiStream option"
  sseParser :: SSEParser
  messageQueue :: "MCPMessage list"
  pendingRequests :: "(MessageId \<times> PendingRequest) list"
  reconnectAttempts :: nat
  isProcessingQueue :: bool

definition newTransport :: Transport where
  "newTransport = \<lparr> state = DISCONNECTED, sessionId = None, stream = None,
     sseParser = newParser, messageQueue = [], pendingRequests = [],
     reconnectAttempts = 0, isProcessingQueue = False \<rparr>"

definition setState :: "Transport \<Rightarrow> TransportState \<Rightarrow> Transport \<times> effect list" where
  "setState t s = (if state t \<noteq> s then (t\<lparr> state := s \<rparr>, [Emit_stateChange s]) else (t, []))"

definition isReady :: "Transport \<Rightarrow> bool" where
  "isReady t = (state t = CONNECTED \<and> sessionId t \<noteq> None)"

text \<open>Decimal rendering of a number inside a template literal.\<close>

definition digitChar :: "nat \<Rightarrow> char" where
  "digitChar d = ''0123456789'' ! d"

fun showNat :: "nat \<Rightarrow> string" where
  "showNat n = (if n < 10 then [digitChar n] else showNat (n div 10) @ [digitChar (n mod 10)])"

declare showNat.simps [simp del]

definition showInt :: "int \<Rightarrow> string" where
  "showInt i = (if i < 0 then CHR ''-'' # showNat (nat (- i)) else showNat (nat i))"

subsection \<open>Teardown, stream closure and reconnection\<close>

text \<open>
  \<open>cleanup\<close> calls \<open>stream.close()\<close>, and \<open>ZitiStreamImpl.close\<close> emits the stream's \<open>close\<close>
  event synchronously when the stream was open; the transport's listener for that event is
  \<open>handleStreamClose\<close>, which may call \<open>reconnect\<close>, which calls \<open>cleanup\<close> again.  The three
  are therefore mutually recursive.  The nested \<open>cleanup\<close> finds the stream already closed, so
  the recursion ends there.  \<open>reconnect\<close> is asynchronous: the model covers everything up to
  its first \<open>await\<close> and records the awaited delay, after which the method calls \<open>connect\<close>.
\<close>

definition rejectAll :: "(MessageId \<times> PendingRequest) list \<Rightarrow> effect list" where
  "rejectAll ps = concat (map (\<lambda>(i, pending).
      [ClearTimeout (timeout pending), Reject (promise pending) ''Transport disconnected'']) ps)"

definition streamIsOpen :: "Transport \<Rightarrow> bool" where
  "streamIsOpen t = (case stream t of None \<Rightarrow> False | Some s \<Rightarrow> isOpen s)"

function cleanup :: "TransportOptions \<Rightarrow> Transport \<Rightarrow> Transport \<times> effect list"
  and handleStreamClose :: "TransportOptions \<Rightarrow> Transport \<Rightarrow> Transport \<times> effect list"
  and reconnect :: "TransportOptions \<Rightarrow> Transport \<Rightarrow> Transport \<times> effect list"
where
  "cleanup opts t =
     (case (case stream t of
              None \<Rightarrow> (t\<lparr> pendingRequests := [] \<rparr>, [])
            | Some s \<Rightarrow>
                if isOpen s
                then (case handleStreamClose opts
                             (t\<lparr> pendingRequests := [],
                                 stream := Some (s\<lparr> isOpen := False \<rparr>) \<rparr>) of
                        (t', es) \<Rightarrow> (t', ZitiClose (handle s) # es))
                else (t\<lparr> pendingRequests := [] \<rparr>, []))
      of (t2, closing) \<Rightarrow>
        (t2\<lparr> stream := None, sseParser := reset (sseParser t2), sessionId := None \<rparr>,
         rejectAll (pendingRequests t) @ closing))"
| "handleStreamClose opts t =
     (if state t = CLOSED then (t, [])
      else if autoReconnect opts then reconnect opts (t\<lparr> sessionId := None \<rparr>)
      else (case setState (t\<lparr> sessionId := None \<rparr>) DISCONNECTED of
              (t1, es) \<Rightarrow> (t1, es @ [Emit_disconnected ''Stream closed''])))"
| "reconnect opts t =
     (if int (reconnectAttempts t) \<ge> maxReconnectAttempts opts then
        (case setState t DISCONNECTED of
           (t1, es) \<Rightarrow>
             (t1, LogError (''Max reconnect attempts ('' @ showInt (maxReconnectAttempts opts)
                             @ '') exceeded'')
                  # es @ [Emit_disconnected ''Max reconnect attempts exceeded'']))
      else
        (case setState (t\<lparr> reconnectAttempts := reconnectAttempts t + 1 \<rparr>) RECONNECTING of
           (t1, es) \<Rightarrow>
             (case cleanup opts t1 of
                (t2, cs) \<Rightarrow>
                  (t2, es @ [Emit_reconnecting (reconnectAttempts t1)] @ cs
                       @ [AwaitDelayThenConnect
                            (reconnectDelay opts * 2 ^ (reconnectAttempts t1 - 1))]))))"
  by pat_completeness auto
termination
  by (relation "measure (\<lambda>x. case x of
        Inl (opts, t) \<Rightarrow> (if streamIsOpen t then 3 else 0)
      | Inr (Inl (opts, t)) \<Rightarrow> (if streamIsOpen t then 5 else 2)
      | Inr (Inr (opts, t)) \<Rightarrow> (if streamIsOpen t then 4 else 1))")
     (auto simp: streamIsOpen_def setState_def split: option.splits if_splits)

declare cleanup.simps [simp del] handleStreamClose.simps [simp del] reconnect.simps [simp del]

subsection \<open>Stream errors, disconnect and the handshake wait\<close>

definition handleStreamError ::
  "TransportOptions \<Rightarrow> Transport \<Rightarrow> string \<Rightarrow> Transport \<times> effect list" where
  "handleStreamError opts t errorMessage =
     (if autoReconnect opts \<and> state t \<noteq> CLOSED then
        (case reconnect opts t of (t1, es) \<Rightarrow> (t1, Emit_error errorMessage # es))
      else
        (case setState t DISCONNECTED of
           (t1, es) \<Rightarrow> (t1, Emit_error errorMessage # es @ [Emit_disconnected errorMessage])))"

definition handleReconnectEvent :: "TransportOptions \<Rightarrow> Transport \<Rightarrow> Transport \<times> effect list"
  where "handleReconnectEvent opts t = reconnect opts t"

definition disconnect :: "TransportOptions \<Rightarrow> Transport \<Rightarrow> Transport \<times> effect list" where
  "disconnect opts t =
     (case setState t CLOSED of
        (t1, es) \<Rightarrow>
          (case cleanup opts t1 of
             (t2, cs) \<Rightarrow> (t2, es @ cs @ [Emit_disconnected ''User requested disconnect''])))"

text \<open>
  \<open>connect\<close> is asynchronous.  Its synchronous pieces are modelled one by one: the entry up
  to the creation of the stream, one run of the polling closure \<open>checkSession\<close> of
  \<open>waitForSession\<close>, and the \<open>catch\<close> block that a rejected wait (or any other failure) reaches.
  \<open>checkSession\<close> tests \<open>this._sessionId\<close> for truthiness, so an empty string counts as absent.
\<close>

datatype ConnectEntry = AlreadyConnected | NotInitialized | OpenStream

definition connect_entry :: "bool \<Rightarrow> Transport \<Rightarrow> Transport \<times> effect list \<times> ConnectEntry" where
  "connect_entry initialized t =
     (if state t = CONNECTED then (t, [], AlreadyConnected)
      else (case setState t CONNECTING of
              (t1, es) \<Rightarrow> (t1, es, if initialized then OpenStream else NotInitialized)))"

datatype SessionPoll = SessionEstablished | ClosedBeforeSession | PollAgain

definition checkSession :: "Transport \<Rightarrow> SessionPoll" where
  "checkSession t =
     (if sessionId t \<noteq> None \<and> sessionId t \<noteq> Some [] then SessionEstablished
      else if state t = DISCONNECTED then ClosedBeforeSession
      else PollAgain)"

text \<open>What \<open>waitForSession\<close> settles with.  \<open>checkSession\<close> runs once when the wait starts
  and then every 100 ms until the connect timer fires: the first argument is the transport as
  the first run sees it, the second lists the transport as seen by the later runs that happen
  before the timer fires.  When none of the runs settles the promise, the timer rejects it.\<close>

fun waitForSession :: "Transport \<Rightarrow> Transport list \<Rightarrow> string + unit" where
  "waitForSession t [] =
     (case checkSession t of
        SessionEstablished \<Rightarrow> Inr ()
      | ClosedBeforeSession \<Rightarrow> Inl ''Connection closed before session established''
      | PollAgain \<Rightarrow> Inl ''Session establishment timeout'')"
| "waitForSession t (t' # ts) =
     (case checkSession t of
        SessionEstablished \<Rightarrow> Inr ()
      | ClosedBeforeSession \<Rightarrow> Inl ''Connection closed before session established''
      | PollAgain \<Rightarrow> waitForSession t' ts)"

definition connect_catch :: "Transport \<Rightarrow> string \<Rightarrow> Transport \<times> effect list \<times> string" where
  "connect_catch t message =
     (case setState t DISCONNECTED of
        (t1, es) \<Rightarrow>
          (t1, es @ [LogError (''Connection failed: '' @ message)],
           ''Failed to connect: '' @ message))"

subsection \<open>Sending, requests and the queue\<close>

text \<open>The HTTP collaborator \<open>zitiConnection.httpRequest\<close> is outside the transport: its
  outcome for a call is a parameter, \<open>Inl\<close> the message of a rejection, \<open>Inr\<close> the response.\<close>

type_synonym HttpResult = "string + HttpResponse"

definition messagePath :: string where
  "messagePath = ''/message''"

definition sendUrl :: "Transport \<Rightarrow> string" where
  "sendUrl t = messagePath @ ''?sessionId='' @ (case sessionId t of None \<Rightarrow> ''null'' | Some s \<Rightarrow> s)"

definition sendImmediate ::
  "HttpResult \<Rightarrow> Transport \<Rightarrow> MCPMessage \<Rightarrow> effect list \<times> (string + unit)" where
  "sendImmediate r t message =
     (case (case r of
              Inl e \<Rightarrow> Inl e
            | Inr response \<Rightarrow>
                if status response \<ge> 400
                then Inl (''Server error '' @ showInt (status response) @ '': '' @ body response)
                else Inr ())
      of Inl message_error \<Rightarrow>
           ([HttpPost (sendUrl t) message, LogError (''Failed to send message: '' @ message_error)],
            Inl (''Failed to send message: '' @ message_error))
       | Inr u \<Rightarrow> ([HttpPost (sendUrl t) message], Inr ()))"

definition send ::
  "HttpResult \<Rightarrow> Transport \<Rightarrow> MCPMessage \<Rightarrow> Transport \<times> effect list \<times> (string + unit)" where
  "send r t message =
     (if \<not> isReady t then (t\<lparr> messageQueue := messageQueue t @ [message] \<rparr>, [], Inr ())
      else (case sendImmediate r t message of (es, res) \<Rightarrow> (t, es, res)))"

text \<open>\<open>request\<close>: \<open>p\<close> names the promise it returns and \<open>tm\<close> the timer it starts.  The result
  is \<open>Inl\<close> when the call fails at once (no id, or \<open>send\<close> failed), otherwise the pending
  promise.\<close>

definition request ::
  "TransportOptions \<Rightarrow> HttpResult \<Rightarrow> nat \<Rightarrow> nat \<Rightarrow> Transport \<Rightarrow> MCPMessage
     \<Rightarrow> Transport \<times> effect list \<times> (string + nat)" where
  "request opts r p tm t message =
     (case msg_id message of
        None \<Rightarrow> (t, [], Inl ''Request message must have an id'')
      | Some i \<Rightarrow>
          (case send r (t\<lparr> pendingRequests :=
                  AList.update i \<lparr> promise = p, timeout = tm \<rparr> (pendingRequests t) \<rparr>) message of
             (t1, es, Inr u) \<Rightarrow> (t1, SetTimeout tm (requestTimeout opts) # es, Inr p)
           | (t1, es, Inl err) \<Rightarrow>
               (t1\<lparr> pendingRequests := AList.delete i (pendingRequests t1) \<rparr>,
                SetTimeout tm (requestTimeout opts) # es @ [ClearTimeout tm, Reject p err],
                Inl err)))"

text \<open>
  The drain loop of \<open>processQueuedMessages\<close>.  It suspends at every dispatch, so its run
  depends on the outcome of each HTTP call and on what other handlers did to the transport
  while the call was in flight.  Both are given by a script with one entry per dispatch, in
  order: the outcome and the change made meanwhile.  The loop returns \<open>None\<close> when the script
  is too short to decide the run.  The third component of the result is \<open>Inl\<close> when the loop
  was left by an exception.  Messages are objects, so the test \<open>if (message)\<close> always succeeds.
\<close>

type_synonym DrainScript = "(HttpResult \<times> (Transport \<Rightarrow> Transport)) list"

fun drainLoop :: "DrainScript \<Rightarrow> Transport \<Rightarrow> (Transport \<times> effect list \<times> (string + unit)) option"
  where
  "drainLoop [] t =
     (if messageQueue t \<noteq> [] \<and> isReady t then None else Some (t, [], Inr ()))"
| "drainLoop ((r, during) # script) t =
     (if messageQueue t \<noteq> [] \<and> isReady t then
        (case sendImmediate r t (hd (messageQueue t)) of
           (es, Inl err) \<Rightarrow> Some (during (t\<lparr> messageQueue := tl (messageQueue t) \<rparr>), es, Inl err)
         | (es, Inr u) \<Rightarrow>
             (case drainLoop script (during (t\<lparr> messageQueue := tl (messageQueue t) \<rparr>)) of
                None \<Rightarrow> None
              | Some (t', es', res) \<Rightarrow> Some (t', es @ es', res)))
      else Some (t, [], Inr ()))"

definition processQueuedMessages ::
  "DrainScript \<Rightarrow> Transport \<Rightarrow> (Transport \<times> effect list) option" where
  "processQueuedMessages script t =
     (if isProcessingQueue t then Some (t, [])
      else (case drainLoop script (t\<lparr> isProcessingQueue := True \<rparr>) of
              None \<Rightarrow> None
            | Some (t', es, Inl err) \<Rightarrow>
                Some (t'\<lparr> isProcessingQueue := False \<rparr>,
                      es @ [LogError (''Error processing queued messages: '' @ err)])
            | Some (t', es, Inr u) \<Rightarrow> Some (t'\<lparr> isProcessingQueue := False \<rparr>, es)))"

subsection \<open>Server-sent events\<close>

text \<open>\<open>event.data.match(/sessionId=([^&\s]+)/)\<close>: the first place where \<open>sessionId=\<close> is
  followed by at least one character that is neither \<open>&\<close> nor white space; the token is the
  longest run of such characters.\<close>

definition tokenChar :: "char \<Rightarrow> bool" where
  "tokenChar c = (c \<noteq> CHR ''&'' \<and> \<not> isWhiteSpace c)"

fun matchSessionId :: "string \<Rightarrow> string option" where
  "matchSessionId [] = None"
| "matchSessionId (c # cs) =
     (if prefix ''sessionId='' (c # cs) \<and> takeWhile tokenChar (drop 10 (c # cs)) \<noteq> []
      then Some (takeWhile tokenChar (drop 10 (c # cs)))
      else matchSessionId cs)"

text \<open>The handler starts the drain of the queue without awaiting it; the model runs the
  drain to its end, under the script that decides it.\<close>

definition handleEndpointEvent ::
  "DrainScript \<Rightarrow> Transport \<Rightarrow> SSEEvent \<Rightarrow> (Transport \<times> effect list) option" where
  "handleEndpointEvent script t event =
     (case matchSessionId (ev_data event) of
        Some sid \<Rightarrow>
          (case setState (t\<lparr> sessionId := Some sid \<rparr>) CONNECTED of
             (t1, es) \<Rightarrow>
               (case processQueuedMessages script (t1\<lparr> reconnectAttempts := 0 \<rparr>) of
                  None \<Rightarrow> None
                | Some (t2, ds) \<Rightarrow> Some (t2, es @ [Emit_connected] @ ds)))
      | None \<Rightarrow>
          Some (t, [LogError ''Failed to extract sessionId from endpoint event'',
                    Emit_error ''Invalid endpoint event: missing sessionId'']))"

text \<open>\<open>JSON.parse\<close> is a parameter: \<open>Inl\<close> the text of the exception it throws, \<open>Inr\<close> the
  message it returns.\<close>

definition handleMessageEvent ::
  "(string \<Rightarrow> string + MCPMessage) \<Rightarrow> Transport \<Rightarrow> SSEEvent \<Rightarrow> Transport \<times> effect list" where
  "handleMessageEvent JSON_parse t event =
     (case JSON_parse (ev_data event) of
        Inl error \<Rightarrow>
          (t, [LogError (''Failed to parse message: '' @ ev_data event),
               Emit_error (''Failed to parse MCP message: '' @ error)])
      | Inr message \<Rightarrow>
          (case (case msg_id message of
                   None \<Rightarrow> None
                 | Some i \<Rightarrow> map_option (Pair i) (map_of (pendingRequests t) i))
           of Some (i, pending) \<Rightarrow>
                (t\<lparr> pendingRequests := AList.delete i (pendingRequests t) \<rparr>,
                 [ClearTimeout (timeout pending),
                  (case msg_error message of
                     Some e \<Rightarrow> Reject (promise pending) (err_message e)
                   | None \<Rightarrow> Resolve (promise pending) (msg_result message))])
            | None \<Rightarrow> (t, [Emit_message message])))"

definition handleSSEEvent ::
  "TransportOptions \<Rightarrow> (string \<Rightarrow> string + MCPMessage) \<Rightarrow> DrainScript \<Rightarrow> Transport \<Rightarrow> SSEEvent
     \<Rightarrow> (Transport \<times> effect list) option" where
  "handleSSEEvent opts JSON_parse script t event =
     (if ev_type event = ''endpoint'' then handleEndpointEvent script t event
      else if ev_type event = ''message'' then Some (handleMessageEvent JSON_parse t event)
      else if ev_type event = ''reconnect'' then Some (handleReconnectEvent opts t)
      else Some (t, []))"

subsection \<open>Auxiliary notions used in the statements\<close>

text \<open>What \<open>stream.close()\<close> does to the stream itself inside \<open>cleanup\<close>.\<close>

definition closingEffects :: "Transport \<Rightarrow> effect list" where
  "closingEffects t = (case stream t of None \<Rightarrow> []
     | Some s \<Rightarrow> if isOpen s then [ZitiClose (handle s)] else [])"

text \<open>A dispatch fails when the HTTP call is rejected or answers with a status of 400 or
  more; \<open>failureText\<close> is the message of the error that \<open>sendImmediate\<close> then throws.\<close>

definition dispatchFails :: "HttpResult \<Rightarrow> bool" where
  "dispatchFails r = (case r of Inl e \<Rightarrow> True | Inr response \<Rightarrow> status response \<ge> 400)"

definition failureText :: "HttpResult \<Rightarrow> string" where
  "failureText r = ''Failed to send message: '' @
     (case r of Inl e \<Rightarrow> e
      | Inr response \<Rightarrow> ''Server error '' @ showInt (status response) @ '': '' @ body response)"

text \<open>Concrete values: the options of the test suite (no automatic reconnection), the
  endpoint event of the handshake, the transport after that handshake, and two messages.\<close>

definition noReconnect :: TransportOptions where
  "noReconnect = defaultOptions\<lparr> autoReconnect := False \<rparr>"

definition endpointEvent :: SSEEvent where
  "endpointEvent = \<lparr> ev_type = ''endpoint'', ev_data = ''/message?sessionId=abc123'',
     ev_id = None, ev_retry = None \<rparr>"

definition connectingTransport :: Transport where
  "connectingTransport = newTransport\<lparr> state := CONNECTING,
     stream := Some \<lparr> handle = 1, isOpen = True \<rparr>,
     sseParser := newParser\<lparr> httpHeadersParsed := True \<rparr> \<rparr>"

definition connectedTransport :: Transport where
  "connectedTransport = connectingTransport\<lparr> state := CONNECTED, sessionId := Some ''abc123'' \<rparr>"

definition notification :: "string \<Rightarrow> MCPMessage" where
  "notification m = \<lparr> msg_id = None, msg_method = Some m, msg_params = None,
     msg_result = None, msg_error = None \<rparr>"

definition requestMessage :: "int \<Rightarrow> string \<Rightarrow> MCPMessage" where
  "requestMessage i m = \<lparr> msg_id = Some (IdNum i), msg_method = Some m, msg_params = None,
     msg_result = None, msg_error = None \<rparr>"

definition resultMessage :: "int \<Rightarrow> json \<Rightarrow> MCPMessage" where
  "resultMessage i v = \<lparr> msg_id = Some (IdNum i), msg_method = None, msg_params = None,
     msg_result = Some v, msg_error = None \<rparr>"

definition errorMessage :: "int \<Rightarrow> string \<Rightarrow> MCPMessage" where
  "errorMessage i m = \<lparr> msg_id = Some (IdNum i), msg_method = None, msg_params = None,
     msg_result = None,
     msg_error = Some \<lparr> err_code = - 32600, err_message = m, err_data = None \<rparr> \<rparr>"

definition messageEvent :: "string \<Rightarrow> SSEEvent" where
  "messageEvent d = \<lparr> ev_type = ''message'', ev_data = d, ev_id = None, ev_retry = None \<rparr>"

definition pendingTransport :: Transport where
  "pendingTransport = connectedTransport
     \<lparr> pendingRequests := [(IdNum 42, \<lparr> promise = 7, timeout = 3 \<rparr>)] \<rparr>"

definition failedStreamTransport :: Transport where
  "failedStreamTransport = connectedTransport\<lparr> stream := Some \<lparr> handle = 1, isOpen = False \<rparr> \<rparr>"

definition queuedTransport :: Transport where
  "queuedTransport = connectedTransport
     \<lparr> messageQueue := [notification ''msg1'', notification ''msg2''] \<rparr>"

definition accepted :: HttpResult where
  "accepted = Inr \<lparr> status = 202, body = ''Accepted'' \<rparr>"

definition serverError :: HttpResult where
  "serverError = Inr \<lparr> status = 500, body = ''oops'' \<rparr>"

definition reconnectEvent :: SSEEvent where
  "reconnectEvent = \<lparr> ev_type = ''reconnect'', ev_data = [], ev_id = None, ev_retry = None \<rparr>"

definition singleAttempt :: TransportOptions where
  "singleAttempt = defaultOptions\<lparr> maxReconnectAttempts := 1 \<rparr>"

text \<open>A transport on which \<open>disconnect\<close> was called and then \<open>request\<close>: it is \<open>CLOSED\<close>,
  and the request is queued and pending.\<close>

definition closedPendingTransport :: Transport where
  "closedPendingTransport =
     fst (request defaultOptions accepted 7 3 (fst (disconnect defaultOptions newTransport))
            (requestMessage 1 ''tools/list''))"

section \<open>Parser: chunk boundaries\<close>

subsection \<open>Searching and splitting commute with appending input\<close>

lemma indexOf_None_iff: "indexOf s pat = None \<longleftrightarrow> \<not> sublist pat s"
  by (induction s) (auto simp: sublist_Cons_right)

lemma indexOf_bound: "indexOf s pat = Some i \<Longrightarrow> i + length pat \<le> length s"
proof (induction s arbitrary: i)
  case Nil
  then show ?case by (simp split: if_splits)
next
  case (Cons c cs)
  show ?case
  proof (cases "prefix pat (c # cs)")
    case True
    with Cons.prems have "i = 0" by simp
    with prefix_length_le[OF True] show ?thesis by simp
  next
    case False
    with Cons.prems obtain j where j: "indexOf cs pat = Some j" "i = Suc j" by auto
    from Cons.IH[OF j(1)] j(2) show ?thesis by simp
  qed
qed

lemma indexOf_append: "indexOf a pat = Some i \<Longrightarrow> indexOf (a @ b) pat = Some i"
proof (induction a arbitrary: i)
  case Nil
  then show ?case by (cases b) (auto split: if_splits)
next
  case (Cons c cs)
  show ?case
  proof (cases "prefix pat (c # cs)")
    case True
    with Cons.prems have "i = 0" by simp
    moreover from True have "prefix pat (c # cs @ b)"
      by (metis append_Cons prefix_prefix)
    ultimately show ?thesis by simp
  next
    case False
    with Cons.prems obtain j where j: "indexOf cs pat = Some j" "i = Suc j" by auto
    from indexOf_bound[OF j(1)] have len: "length pat \<le> length (c # cs)" by simp
    have "\<not> prefix pat (c # cs @ b)"
    proof
      assume "prefix pat (c # cs @ b)"
      then have "prefix pat ((c # cs) @ b)" by simp
      with len have "prefix pat (c # cs)"
        by (metis prefix_append prefix_length_prefix prefixI prefix_order.dual_order.refl linorder_le_cases prefix_length_le)
      with False show False by simp
    qed
    with j Cons.IH[OF j(1)] show ?thesis by simp
  qed
qed

lemma splitLines_LF: "splitLines (LF # xs) = [] # splitLines xs"
  by (cases xs) auto

lemma splitLines_ne: "splitLines xs \<noteq> []"
  by (induction xs rule: splitLines.induct) (auto elim: consHead.elims)

lemma consHead_ne: "consHead c L \<noteq> []"
  by (cases L) auto

lemma splitLines_single: "splitLines xs = [l] \<Longrightarrow> l = xs"
proof (induction xs arbitrary: l rule: splitLines.induct)
  case 1 then show ?case by simp
next
  case (2 c) then show ?case by (simp split: if_splits)
next
  case (3 c d cs)
  from "3.prems" have a: "c \<noteq> LF" "\<not> (c = CR \<and> d = LF)"
    by (auto simp: splitLines_ne split: if_splits)
  with "3.prems" have ch: "consHead c (splitLines (d # cs)) = [l]" by simp
  obtain m ms where L: "splitLines (d # cs) = m # ms"
    using splitLines_ne[of "d # cs"] by (cases "splitLines (d # cs)") auto
  with ch have "ms = []" "l = c # m" by auto
  with L "3.IH"(3)[OF _ _ , of m] a show ?case by auto
qed

lemma splitLines_append:
  "splitLines (xs @ ys) = butlast (splitLines xs) @ splitLines (last (splitLines xs) @ ys)"
proof (induction xs rule: splitLines.induct)
  case 1 show ?case by simp
next
  case (2 c)
  show ?case by (simp add: splitLines_LF)
next
  case (3 c d cs)
  show ?case
  proof (cases "c = LF")
    case True
    with "3.IH"(1) show ?thesis by (simp add: splitLines_ne)
  next
    case nlf: False
    show ?thesis
    proof (cases "c = CR \<and> d = LF")
      case True
      with nlf "3.IH"(2) show ?thesis by (simp add: splitLines_ne)
    next
      case False
      obtain m ms where L: "splitLines (d # cs) = m # ms"
        using splitLines_ne[of "d # cs"] by (cases "splitLines (d # cs)") auto
      have IH: "splitLines ((d # cs) @ ys) = butlast (m # ms) @ splitLines (last (m # ms) @ ys)"
        using "3.IH"(3)[OF nlf False] L by simp
      have lhs: "splitLines ((c # d # cs) @ ys) = consHead c (splitLines ((d # cs) @ ys))"
        by (simp only: append_Cons splitLines.simps nlf False if_False)
      show ?thesis
      proof (cases ms)
        case Nil
        with L have "m = d # cs" using splitLines_single by blast
        with Nil L have "splitLines (c # d # cs) = [c # d # cs]"
          by (simp only: splitLines.simps nlf False if_False consHead.simps)
        then show ?thesis by simp
      next
        case (Cons m' ms')
        have r: "splitLines (c # d # cs) = (c # m) # m' # ms'"
          by (simp only: splitLines.simps nlf False if_False L Cons consHead.simps)
        have "splitLines ((c # d # cs) @ ys) =
                consHead c (butlast (m # m' # ms') @ splitLines (last (m # m' # ms') @ ys))"
          by (simp only: lhs IH Cons)
        also have "\<dots> = butlast ((c # m) # m' # ms') @ splitLines (last ((c # m) # m' # ms') @ ys)"
          by simp
        finally show ?thesis by (simp only: r)
      qed
    qed
  qed
qed

lemma processField_buffer:
  "processField (p\<lparr>buffer := b\<rparr>) f v = (processField p f v)\<lparr>buffer := b\<rparr>"
  by (simp add: processField_def split: option.splits)

lemma dispatchEvent_buffer:
  "dispatchEvent (p\<lparr>buffer := b\<rparr>) =
     (case dispatchEvent p of (q, es) \<Rightarrow> (q\<lparr>buffer := b\<rparr>, es))"
  by (simp add: dispatchEvent_def resetEvent_def Let_def split: option.splits)

lemma processLine_buffer:
  "processLine (p\<lparr>buffer := b\<rparr>) l =
     (case processLine p l of (q, es) \<Rightarrow> (q\<lparr>buffer := b\<rparr>, es))"
  by (simp add: processLine_def dispatchEvent_buffer processField_buffer Let_def
           split: option.splits)

lemma processLines_buffer:
  "processLines (p\<lparr>buffer := b\<rparr>) ls =
     (case processLines p ls of (q, es) \<Rightarrow> (q\<lparr>buffer := b\<rparr>, es))"
proof (induction ls arbitrary: p)
  case Nil
  show ?case by simp
next
  case (Cons l ls)
  show ?case
    by (simp add: processLine_buffer Cons.IH split: prod.splits)
qed

lemma processLines_append:
  "processLines p (xs @ ys) =
     (case processLines p xs of (p1, es1) \<Rightarrow>
        (case processLines p1 ys of (p2, es2) \<Rightarrow> (p2, es1 @ es2)))"
  by (induction xs arbitrary: p) (auto split: prod.splits)

lemma processBuffer_append:
  "processBuffer (p\<lparr>buffer := x @ c\<rparr>) =
     (case processBuffer (p\<lparr>buffer := x\<rparr>) of (p1, es1) \<Rightarrow>
        (case processBuffer (p1\<lparr>buffer := buffer p1 @ c\<rparr>) of (p2, es2) \<Rightarrow> (p2, es1 @ es2)))"
proof -
  define L where "L = splitLines x"
  define r where "r = last L"
  define L' where "L' = splitLines (r @ c)"
  have Lne: "L \<noteq> []" and L'ne: "L' \<noteq> []" by (simp_all add: L_def L'_def splitLines_ne)
  have split: "splitLines (x @ c) = butlast L @ L'"
    unfolding L_def r_def L'_def by (rule splitLines_append)
  obtain p1 es1 where p1: "processLines p (butlast L) = (p1, es1)"
    by (cases "processLines p (butlast L)")
  obtain p2 es2 where p2: "processLines p1 (butlast L') = (p2, es2)"
    by (cases "processLines p1 (butlast L')")
  have lhs: "processBuffer (p\<lparr>buffer := x @ c\<rparr>) = (p2\<lparr>buffer := last L'\<rparr>, es1 @ es2)"
    using split Lne L'ne p1 p2
    by (simp add: processBuffer_def Let_def butlast_append processLines_buffer processLines_append)
  have first: "processBuffer (p\<lparr>buffer := x\<rparr>) = (p1\<lparr>buffer := r\<rparr>, es1)"
    using Lne p1 by (simp add: processBuffer_def Let_def L_def[symmetric] r_def processLines_buffer)
  have second: "processBuffer (p1\<lparr>buffer := r @ c\<rparr>) = (p2\<lparr>buffer := last L'\<rparr>, es2)"
    using L'ne p2 by (simp add: processBuffer_def Let_def L'_def[symmetric] processLines_buffer)
  show ?thesis
    by (simp add: lhs first second)
qed

lemma processField_hp: "httpHeadersParsed (processField p f v) = httpHeadersParsed p"
  by (simp add: processField_def split: option.splits)

lemma dispatchEvent_hp: "httpHeadersParsed (fst (dispatchEvent p)) = httpHeadersParsed p"
  by (simp add: dispatchEvent_def resetEvent_def Let_def split: option.splits)

lemma processLine_hp: "httpHeadersParsed (fst (processLine p l)) = httpHeadersParsed p"
  by (simp add: processLine_def dispatchEvent_hp processField_hp Let_def split: option.splits)

lemma processLines_hp: "httpHeadersParsed (fst (processLines p ls)) = httpHeadersParsed p"
proof (induction ls arbitrary: p)
  case Nil
  show ?case by simp
next
  case (Cons l ls)
  obtain p1 es1 where a: "processLine p l = (p1, es1)" by (cases "processLine p l")
  with processLine_hp[of p l] have "httpHeadersParsed p1 = httpHeadersParsed p" by simp
  with a Cons.IH[of p1] show ?case by (cases "processLines p1 ls") simp
qed

lemma processBuffer_hp:
  "processBuffer p = (q, es) \<Longrightarrow> httpHeadersParsed q = httpHeadersParsed p"
  using processLines_hp[of "p\<lparr>buffer := (if splitLines (buffer p) = [] then [] else last (splitLines (buffer p)))\<rparr>" "butlast (splitLines (buffer p))"]
  by (simp add: processBuffer_def Let_def)

lemma feed_parsed:
  "httpHeadersParsed p \<Longrightarrow> feed p c = processBuffer (p\<lparr>buffer := buffer p @ c\<rparr>)"
  by (simp add: feed_def Let_def)

lemma feed_append:
  "feed p (c1 @ c2) =
     (case feed p c1 of (p1, es1) \<Rightarrow>
        (case feed p1 c2 of (p2, es2) \<Rightarrow> (p2, es1 @ es2)))"
proof (cases "httpHeadersParsed p")
  case True
  obtain p1 es1 where p1: "processBuffer (p\<lparr>buffer := buffer p @ c1\<rparr>) = (p1, es1)"
    by (cases "processBuffer (p\<lparr>buffer := buffer p @ c1\<rparr>)")
  from processBuffer_hp[OF p1] True have hp1: "httpHeadersParsed p1" by simp
  have "feed p (c1 @ c2) = processBuffer (p\<lparr>buffer := (buffer p @ c1) @ c2\<rparr>)"
    using True by (simp add: feed_parsed)
  also have "\<dots> = (case processBuffer (p1\<lparr>buffer := buffer p1 @ c2\<rparr>) of
                        (p2, es2) \<Rightarrow> (p2, es1 @ es2))"
    using processBuffer_append[where p = p and x = "buffer p @ c1" and c = c2] p1 by simp
  finally show ?thesis
    using True hp1 p1 by (simp add: feed_parsed)
next
  case False
  show ?thesis
  proof (cases "indexOf (buffer p @ c1) CRLFCRLF")
    case None
    with False show ?thesis by (simp add: feed_def Let_def split: option.splits)
  next
    case (Some i)
    define p' where "p' = p\<lparr>httpHeadersParsed := True\<rparr>"
    define x where "x = drop (i + 4) (buffer p @ c1)"
    from indexOf_bound[OF Some] have len: "i + 4 \<le> length (buffer p @ c1)" by simp
    have whole: "indexOf (buffer p @ c1 @ c2) CRLFCRLF = Some i"
      using indexOf_append[OF Some, of c2] by simp
    have dr: "drop (i + 4) (buffer p @ c1 @ c2) = x @ c2"
      using len by (simp add: x_def)
    obtain p1 es1 where p1: "processBuffer (p'\<lparr>buffer := x\<rparr>) = (p1, es1)"
      by (cases "processBuffer (p'\<lparr>buffer := x\<rparr>)")
    from processBuffer_hp[OF p1] have hp1: "httpHeadersParsed p1" by (simp add: p'_def)
    have eq: "p\<lparr>buffer := X, httpHeadersParsed := True\<rparr> = p'\<lparr>buffer := X\<rparr>" for X
      unfolding p'_def by (cases p) simp
    have "feed p c1 = processBuffer (p'\<lparr>buffer := x\<rparr>)"
      using False Some by (simp add: feed_def Let_def x_def eq del: drop_append)
    with p1 have f1: "feed p c1 = (p1, es1)" by simp
    have "feed p (c1 @ c2) = processBuffer (p'\<lparr>buffer := drop (i + 4) (buffer p @ c1 @ c2)\<rparr>)"
      using False whole by (simp add: feed_def Let_def eq del: drop_append)
    also have "\<dots> = processBuffer (p'\<lparr>buffer := x @ c2\<rparr>)"
      by (simp only: dr)
    also have "\<dots> = (case processBuffer (p1\<lparr>buffer := buffer p1 @ c2\<rparr>) of
                        (p2, es2) \<Rightarrow> (p2, es1 @ es2))"
      using processBuffer_append[where p = p' and x = x and c = c2] p1 by simp
    finally show ?thesis
      using hp1 f1 by (simp add: feed_parsed)
  qed
qed

lemma feedAll_nonempty:
  "chunks \<noteq> [] \<Longrightarrow> feedAll p chunks = feed p (concat chunks)"
proof (induction chunks arbitrary: p)
  case Nil
  then show ?case by simp
next
  case (Cons c cs)
  show ?case
  proof (cases cs)
    case Nil
    then show ?thesis by (simp split: prod.splits)
  next
    case (Cons c' cs')
    then have "cs \<noteq> []" by simp
    from Cons.IH[OF this] show ?thesis
      by (simp add: feed_append split: prod.splits)
  qed
qed

lemma feed_newParser_empty: "feed newParser [] = (newParser, [])"
  by (simp add: feed_def newParser_def)

lemma feedAll_concat: "feedAll newParser chunks = feed newParser (concat chunks)"
  by (cases chunks) (simp_all add: feed_newParser_empty feedAll_nonempty del: feedAll.simps(2))


lemma feed_no_separator:
  "\<not> sublist CRLFCRLF s \<Longrightarrow> feed newParser s = (newParser\<lparr>buffer := s\<rparr>, [])"
proof -
  assume "\<not> sublist CRLFCRLF s"
  then have "indexOf s CRLFCRLF = None" by (simp add: indexOf_None_iff)
  then show ?thesis by (simp add: feed_def newParser_def)
qed

lemma reset_newParser: "reset p = newParser"
  by (simp add: reset_def resetEvent_def newParser_def)

subsection \<open>Claims about the parser\<close>

text \<open>
  C2 (evaluated at two inputs of the repository's own parser tests, "should parse simple
  message event" and "should handle CRLF line endings"): each input is a complete
  single-cycle input with one data line, ending in a blank line, and the tests expect exactly
  one event from a single \<open>feed\<close> on a fresh parser.  The code emits none.  On the first
  input \<open>feed\<close> finds no CRLF CRLF separator, keeps the whole chunk in the buffer and
  returns before any line is processed; on the second it takes the data line itself for the
  HTTP header block and discards it.
\<close>

theorem C2_headerless_cycle_emits_nothing:
  "feed newParser ''data: hello world\<newline>\<newline>'' =
     (newParser\<lparr>buffer := ''data: hello world\<newline>\<newline>''\<rparr>, [])
   \<and> feed newParser (''data: test'' @ [CR, LF, CR, LF]) =
     (newParser\<lparr>httpHeadersParsed := True\<rparr>, [])"
  by (simp add: feed_def newParser_def processBuffer_def)

text \<open>
  C3 (chunk-boundary independence): for every list of chunks, feeding the chunks one by one
  to a fresh parser emits the same events in the same order, and ends in the same parser
  state (hence the same \<open>lastEventId\<close> and \<open>retryInterval\<close>), as feeding their concatenation
  in one call.
\<close>

theorem C3_chunk_boundary_independence:
  "feedAll newParser chunks = feed newParser (concat chunks)"
  by (rule feedAll_concat)

text \<open>
  C10: as long as the concatenated input of a sequence of \<open>feed\<close> calls contains no
  CRLF CRLF, a parser that is fresh (or has just been \<open>reset\<close>) emits no event, its
  \<open>lastEventId\<close> and \<open>retryInterval\<close> stay undefined, the headers are not marked as
  parsed, and every character fed so far is still in the buffer.
\<close>

theorem C10_no_separator_buffers_everything:
  assumes "\<not> sublist CRLFCRLF (concat chunks)"
  shows "feedAll newParser chunks = (newParser\<lparr>buffer := concat chunks\<rparr>, [])
       \<and> feedAll (reset p) chunks = (newParser\<lparr>buffer := concat chunks\<rparr>, [])
       \<and> snd (feedAll newParser chunks) = []
       \<and> lastEventId (fst (feedAll newParser chunks)) = None
       \<and> retryInterval (fst (feedAll newParser chunks)) = None
       \<and> httpHeadersParsed (fst (feedAll newParser chunks)) = False"
proof -
  have a: "feedAll newParser chunks = (newParser\<lparr>buffer := concat chunks\<rparr>, [])"
    using assms by (simp add: feedAll_concat feed_no_separator)
  then have b: "feedAll (reset p) chunks = (newParser\<lparr>buffer := concat chunks\<rparr>, [])"
    by (simp only: reset_newParser)
  from a have c: "lastEventId (fst (feedAll newParser chunks)) = None"
    and d: "retryInterval (fst (feedAll newParser chunks)) = None"
    and e: "httpHeadersParsed (fst (feedAll newParser chunks)) = False"
    by (simp_all add: newParser_def)
  from a have f: "snd (feedAll newParser chunks) = []" by simp
  from a b c d e f show ?thesis by blast
qed

theorem C10_witness:
  "\<not> sublist CRLFCRLF (concat [''data: hel'', ''lo\<newline>'', ''\<newline>''])
   \<and> feedAll newParser [''data: hel'', ''lo\<newline>'', ''\<newline>''] =
       (newParser\<lparr>buffer := ''data: hello\<newline>\<newline>''\<rparr>, [])"
proof -
  have h: "\<not> sublist CRLFCRLF (concat [''data: hel'', ''lo\<newline>'', ''\<newline>''])"
    by (simp add: indexOf_None_iff[symmetric])
  from C10_no_separator_buffers_everything[OF h] h show ?thesis by simp
qed

section \<open>Transport: state, teardown and reconnection\<close>

subsection \<open>Basic facts\<close>

lemma setState_eq:
  "setState u s = (u\<lparr> state := s \<rparr>, if state u \<noteq> s then [Emit_stateChange s] else [])"
  by (cases "state u = s") (auto simp: setState_def)

lemma handleStreamClose_CLOSED: "state t = CLOSED \<Longrightarrow> handleStreamClose opts t = (t, [])"
  by (simp add: handleStreamClose.simps)

lemma cleanup_CLOSED:
  "state t = CLOSED \<Longrightarrow>
   cleanup opts t =
     (t\<lparr> pendingRequests := [], stream := None, sseParser := newParser, sessionId := None \<rparr>,
      rejectAll (pendingRequests t) @ closingEffects t)"
  by (simp add: cleanup.simps handleStreamClose_CLOSED closingEffects_def reset_newParser
           split: option.splits)

lemma disconnect_eq:
  "disconnect opts t =
     (t\<lparr> state := CLOSED, pendingRequests := [], stream := None, sseParser := newParser,
         sessionId := None \<rparr>,
      (if state t \<noteq> CLOSED then [Emit_stateChange CLOSED] else [])
        @ rejectAll (pendingRequests t) @ closingEffects t
        @ [Emit_disconnected ''User requested disconnect''])"
  by (simp add: disconnect_def setState_eq cleanup_CLOSED closingEffects_def)

lemma isReady_queue [simp]: "isReady (t\<lparr> messageQueue := q \<rparr>) = isReady t"
  by (simp add: isReady_def)

lemma isReady_processing [simp]: "isReady (t\<lparr> isProcessingQueue := b \<rparr>) = isReady t"
  by (simp add: isReady_def)

lemma sendUrl_queue [simp]: "sendUrl (t\<lparr> messageQueue := q \<rparr>) = sendUrl t"
  by (simp add: sendUrl_def)

lemma sendUrl_processing [simp]: "sendUrl (t\<lparr> isProcessingQueue := b \<rparr>) = sendUrl t"
  by (simp add: sendUrl_def)

lemma showInt_500: "showInt 500 = ''500''"
  by (simp add: showInt_def showNat.simps digitChar_def)

lemma connectedTransport_ready: "isReady connectedTransport"
  by (simp add: isReady_def connectedTransport_def)

lemma sendUrl_connected: "sendUrl connectedTransport = ''/message?sessionId=abc123''"
  by (simp add: sendUrl_def connectedTransport_def messagePath_def)

subsection \<open>The session id and the transport state\<close>

text \<open>
  The handshake: the endpoint event of the test suite takes a connecting transport to
  \<open>CONNECTED\<close> with session id \<open>abc123\<close>, so \<open>connectedTransport\<close> is a state the code reaches.
\<close>

lemma handshake_reaches_connectedTransport:
  "handleSSEEvent noReconnect JSON_parse [] connectingTransport endpointEvent
     = Some (connectedTransport, [Emit_stateChange CONNECTED, Emit_connected])"
  by (simp add: handleSSEEvent_def handleEndpointEvent_def endpointEvent_def
      setState_def processQueuedMessages_def newTransport_def connectingTransport_def
      connectedTransport_def tokenChar_def isWhiteSpace_def)

text \<open>
  C1 (evaluated where the claim fails): a stream error reaches a connected transport that was
  built without automatic reconnection.  \<open>handleStreamError\<close> moves the transport to
  \<open>DISCONNECTED\<close> and emits the disconnect notification, but, unlike \<open>handleStreamClose\<close>, it
  does not clear the session id: the resulting state is \<open>DISCONNECTED\<close> with session id
  \<open>abc123\<close>, and a later run of \<open>checkSession\<close> in that state reports an established session.
\<close>

theorem C1_stream_error_keeps_session_id:
  "handleStreamError noReconnect connectedTransport ''Connection lost'' =
     (connectedTransport\<lparr> state := DISCONNECTED \<rparr>,
      [Emit_error ''Connection lost'', Emit_stateChange DISCONNECTED,
       Emit_disconnected ''Connection lost''])
   \<and> state (fst (handleStreamError noReconnect connectedTransport ''Connection lost''))
       = DISCONNECTED
   \<and> sessionId (fst (handleStreamError noReconnect connectedTransport ''Connection lost''))
       = Some ''abc123''
   \<and> checkSession (fst (handleStreamError noReconnect connectedTransport ''Connection lost''))
       = SessionEstablished"
  by (simp add: handleStreamError_def noReconnect_def defaultOptions_def setState_def
        connectedTransport_def connectingTransport_def newTransport_def checkSession_def)

subsection \<open>Responses to pending requests\<close>

lemma request_registers:
  "msg_id req = Some i \<Longrightarrow> request opts r p tm t0 req = (t, es, Inr p') \<Longrightarrow>
   p' = p \<and> map_of (pendingRequests t) i = Some \<lparr> promise = p, timeout = tm \<rparr>"
  by (auto simp: request_def send_def sendImmediate_def update_conv'
           split: if_splits sum.splits prod.splits)

text \<open>
  C4: let a message event parse to the message \<open>message\<close>.  If \<open>message\<close> has an id under which
  the pending-request table holds an entry, the handler clears the entry's timer, removes the
  entry, and completes the entry's promise: it rejects it with \<open>error.message\<close> when the
  message has an error member, and resolves it with \<open>result\<close> otherwise; nothing is forwarded
  to the consumer.  If the message has no id, or no entry is pending under its id, the table
  is unchanged and the message is emitted to the consumer as a \<open>message\<close> notification.
  The entry found is the one that \<open>request\<close> registered for that id, with the promise that
  \<open>request\<close> returned.
\<close>

theorem C4_response_completes_pending_request:
  assumes "JSON_parse (ev_data event) = Inr message"
  shows "(msg_id message = Some i \<and> map_of (pendingRequests t) i = Some pending \<longrightarrow>
            handleMessageEvent JSON_parse t event =
              (t\<lparr> pendingRequests := AList.delete i (pendingRequests t) \<rparr>,
               [ClearTimeout (timeout pending),
                (case msg_error message of
                   Some e \<Rightarrow> Reject (promise pending) (err_message e)
                 | None \<Rightarrow> Resolve (promise pending) (msg_result message))])
            \<and> map_of (pendingRequests (fst (handleMessageEvent JSON_parse t event))) i = None)
       \<and> (msg_id message = None
            \<or> (\<exists>j. msg_id message = Some j \<and> map_of (pendingRequests t) j = None) \<longrightarrow>
            handleMessageEvent JSON_parse t event = (t, [Emit_message message]))
       \<and> (msg_id req = Some i \<and> request opts r p tm t0 req = (t, es, Inr p') \<longrightarrow>
            p' = p \<and> map_of (pendingRequests t) i = Some \<lparr> promise = p, timeout = tm \<rparr>)"
proof (intro conjI impI)
  assume a: "msg_id message = Some i \<and> map_of (pendingRequests t) i = Some pending"
  with assms show "handleMessageEvent JSON_parse t event =
              (t\<lparr> pendingRequests := AList.delete i (pendingRequests t) \<rparr>,
               [ClearTimeout (timeout pending),
                (case msg_error message of
                   Some e \<Rightarrow> Reject (promise pending) (err_message e)
                 | None \<Rightarrow> Resolve (promise pending) (msg_result message))])"
    by (simp add: handleMessageEvent_def)
  then show "map_of (pendingRequests (fst (handleMessageEvent JSON_parse t event))) i = None"
    by (simp add: delete_conv')
next
  assume "msg_id message = None
            \<or> (\<exists>j. msg_id message = Some j \<and> map_of (pendingRequests t) j = None)"
  with assms show "handleMessageEvent JSON_parse t event = (t, [Emit_message message])"
    by (auto simp: handleMessageEvent_def)
next
  assume a: "msg_id req = Some i \<and> request opts r p tm t0 req = (t, es, Inr p')"
  then show "p' = p" using request_registers[of req i opts r p tm t0 t es p'] by simp
  from a show "map_of (pendingRequests t) i = Some \<lparr> promise = p, timeout = tm \<rparr>"
    using request_registers[of req i opts r p tm t0 t es p'] by simp
qed

theorem C4_witness:
  "(\<lambda>d. Inr (resultMessage 42 (JBool True))) (ev_data (messageEvent ''{}''))
      = (Inr (resultMessage 42 (JBool True)) :: string + MCPMessage)
   \<and> msg_id (resultMessage 42 (JBool True)) = Some (IdNum 42)
   \<and> map_of (pendingRequests pendingTransport) (IdNum 42) = Some \<lparr> promise = 7, timeout = 3 \<rparr>
   \<and> handleMessageEvent (\<lambda>d. Inr (resultMessage 42 (JBool True))) pendingTransport
         (messageEvent ''{}'')
       = (connectedTransport, [ClearTimeout 3, Resolve 7 (Some (JBool True))])
   \<and> handleMessageEvent (\<lambda>d. Inr (errorMessage 42 ''bad'')) pendingTransport (messageEvent ''{}'')
       = (connectedTransport, [ClearTimeout 3, Reject 7 ''bad''])
   \<and> map_of (pendingRequests pendingTransport) (IdNum 43) = None
   \<and> handleMessageEvent (\<lambda>d. Inr (resultMessage 43 JNull)) pendingTransport (messageEvent ''{}'')
       = (pendingTransport, [Emit_message (resultMessage 43 JNull)])
   \<and> request defaultOptions accepted 7 3 connectedTransport (requestMessage 42 ''tools/list'')
       = (pendingTransport,
          [SetTimeout 3 60000,
           HttpPost ''/message?sessionId=abc123'' (requestMessage 42 ''tools/list'')],
          Inr 7)"
proof -
  have ct: "connectedTransport\<lparr> pendingRequests := [] \<rparr> = connectedTransport"
    by (simp add: connectedTransport_def connectingTransport_def newTransport_def)
  have h1: "(\<lambda>d. Inr (resultMessage 42 (JBool True))) (ev_data (messageEvent ''{}''))
      = (Inr (resultMessage 42 (JBool True)) :: string + MCPMessage)" by simp
  have h2: "(\<lambda>d. Inr (errorMessage 42 ''bad'')) (ev_data (messageEvent ''{}''))
      = (Inr (errorMessage 42 ''bad'') :: string + MCPMessage)" by simp
  have h3: "(\<lambda>d. Inr (resultMessage 43 JNull)) (ev_data (messageEvent ''{}''))
      = (Inr (resultMessage 43 JNull) :: string + MCPMessage)" by simp
  have rq: "request defaultOptions accepted 7 3 connectedTransport (requestMessage 42 ''tools/list'')
       = (pendingTransport,
          [SetTimeout 3 60000,
           HttpPost ''/message?sessionId=abc123'' (requestMessage 42 ''tools/list'')],
          Inr 7)"
    by (simp add: request_def send_def sendImmediate_def accepted_def requestMessage_def
          connectedTransport_ready[unfolded connectedTransport_def] isReady_def
          pendingTransport_def connectedTransport_def connectingTransport_def newTransport_def
          defaultOptions_def sendUrl_def messagePath_def)
  have pt: "map_of (pendingRequests pendingTransport) (IdNum 42) = Some \<lparr> promise = 7, timeout = 3 \<rparr>"
    "map_of (pendingRequests pendingTransport) (IdNum 43) = None"
    "AList.delete (IdNum 42) (pendingRequests pendingTransport) = []"
    by (simp_all add: pendingTransport_def)
  have pc: "pendingTransport\<lparr> pendingRequests := [] \<rparr> = connectedTransport"
    by (simp add: pendingTransport_def ct)
  from C4_response_completes_pending_request[OF h1, where i = "IdNum 42"
         and t = pendingTransport and pending = "\<lparr> promise = 7, timeout = 3 \<rparr>"
         and req = "requestMessage 42 ''tools/list''" and opts = defaultOptions and r = accepted
         and p = 7 and tm = 3 and ?t0.0 = connectedTransport and p' = 7
         and es = "[SetTimeout 3 60000,
           HttpPost ''/message?sessionId=abc123'' (requestMessage 42 ''tools/list'')]"]
       C4_response_completes_pending_request[OF h2, where i = "IdNum 42"
         and t = pendingTransport and pending = "\<lparr> promise = 7, timeout = 3 \<rparr>"]
       C4_response_completes_pending_request[OF h3, where t = pendingTransport]
  show ?thesis
    using pt pc rq
    by (simp add: resultMessage_def errorMessage_def)
qed

text \<open>
  The steps of one call of \<open>reconnect\<close>.  If the attempt counter has reached
  \<open>maxReconnectAttempts\<close>, the call sets the state to \<open>DISCONNECTED\<close>, emits the disconnect
  notification and returns.  Otherwise it increments the counter and sets the state to
  \<open>RECONNECTING\<close> before the teardown runs, emits the "reconnecting" notification with the
  incremented counter, runs the teardown, and awaits \<open>reconnectDelay * 2 ^ (attempt - 1)\<close>
  before it calls \<open>connect\<close>.  What the transport looks like after the call depends on the
  teardown, which is left as \<open>cleanup\<close> here.
\<close>

lemma reconnect_steps:
  "(int (reconnectAttempts t) \<ge> maxReconnectAttempts opts \<longrightarrow>
      reconnect opts t =
        (t\<lparr> state := DISCONNECTED \<rparr>,
         LogError (''Max reconnect attempts ('' @ showInt (maxReconnectAttempts opts)
                    @ '') exceeded'')
         # (if state t \<noteq> DISCONNECTED then [Emit_stateChange DISCONNECTED] else [])
         @ [Emit_disconnected ''Max reconnect attempts exceeded''])
      \<and> (\<forall>d. AwaitDelayThenConnect d \<notin> set (snd (reconnect opts t)))
      \<and> (\<forall>n. Emit_reconnecting n \<notin> set (snd (reconnect opts t))))
   \<and> (int (reconnectAttempts t) < maxReconnectAttempts opts \<longrightarrow>
      reconnect opts t =
        (fst (cleanup opts
               (t\<lparr> reconnectAttempts := reconnectAttempts t + 1, state := RECONNECTING \<rparr>)),
         (if state t \<noteq> RECONNECTING then [Emit_stateChange RECONNECTING] else [])
         @ [Emit_reconnecting (reconnectAttempts t + 1)]
         @ snd (cleanup opts
                 (t\<lparr> reconnectAttempts := reconnectAttempts t + 1, state := RECONNECTING \<rparr>))
         @ [AwaitDelayThenConnect
              (reconnectDelay opts * 2 ^ ((reconnectAttempts t + 1) - 1))]))"
proof (intro conjI impI)
  assume a: "maxReconnectAttempts opts \<le> int (reconnectAttempts t)"
  show r: "reconnect opts t =
        (t\<lparr> state := DISCONNECTED \<rparr>,
         LogError (''Max reconnect attempts ('' @ showInt (maxReconnectAttempts opts)
                    @ '') exceeded'')
         # (if state t \<noteq> DISCONNECTED then [Emit_stateChange DISCONNECTED] else [])
         @ [Emit_disconnected ''Max reconnect attempts exceeded''])"
    using a by (simp add: reconnect.simps setState_eq)
  show "\<forall>d. AwaitDelayThenConnect d \<notin> set (snd (reconnect opts t))"
    by (simp add: r)
  show "\<forall>n. Emit_reconnecting n \<notin> set (snd (reconnect opts t))"
    by (simp add: r)
next
  assume a: "int (reconnectAttempts t) < maxReconnectAttempts opts"
  have eq: "t\<lparr> reconnectAttempts := Suc (reconnectAttempts t), state := RECONNECTING \<rparr>
          = t\<lparr> state := RECONNECTING, reconnectAttempts := Suc (reconnectAttempts t) \<rparr>"
    by simp
  show "reconnect opts t =
        (fst (cleanup opts
               (t\<lparr> reconnectAttempts := reconnectAttempts t + 1, state := RECONNECTING \<rparr>)),
         (if state t \<noteq> RECONNECTING then [Emit_stateChange RECONNECTING] else [])
         @ [Emit_reconnecting (reconnectAttempts t + 1)]
         @ snd (cleanup opts
                 (t\<lparr> reconnectAttempts := reconnectAttempts t + 1, state := RECONNECTING \<rparr>))
         @ [AwaitDelayThenConnect
              (reconnectDelay opts * 2 ^ ((reconnectAttempts t + 1) - 1))])"
    using a by (simp add: reconnect.simps setState_eq eq split: prod.splits)
qed

lemma cleanup_not_open:
  "\<not> streamIsOpen t \<Longrightarrow>
   cleanup opts t =
     (t\<lparr> pendingRequests := [], stream := None, sseParser := newParser, sessionId := None \<rparr>,
      rejectAll (pendingRequests t))"
  by (simp add: cleanup.simps streamIsOpen_def reset_newParser split: option.splits)

text \<open>When the stream is absent or already closed at the trigger (as it is after a stream
  error, which closes the stream before the handler runs), a trigger below the maximum ends
  as the specification says: counter incremented once, state \<open>RECONNECTING\<close>, one
  "reconnecting" notification and one redial after the backoff delay.\<close>

lemma reconnect_closed_stream:
  assumes "\<not> streamIsOpen t" "int (reconnectAttempts t) < maxReconnectAttempts opts"
  shows "reconnect opts t =
     (t\<lparr> reconnectAttempts := reconnectAttempts t + 1, state := RECONNECTING,
         pendingRequests := [], stream := None, sseParser := newParser, sessionId := None \<rparr>,
      (if state t \<noteq> RECONNECTING then [Emit_stateChange RECONNECTING] else [])
      @ [Emit_reconnecting (reconnectAttempts t + 1)]
      @ rejectAll (pendingRequests t)
      @ [AwaitDelayThenConnect (reconnectDelay opts * 2 ^ reconnectAttempts t)])"
proof -
  have "\<not> streamIsOpen (t\<lparr> reconnectAttempts := reconnectAttempts t + 1, state := RECONNECTING \<rparr>)"
    using assms(1) by (simp add: streamIsOpen_def)
  from cleanup_not_open[OF this, where opts = opts] reconnect_steps[where t = t and opts = opts]
    assms(2)
  show ?thesis by simp
qed

lemma reconnect_after_stream_error:
  "reconnect defaultOptions failedStreamTransport =
     (failedStreamTransport\<lparr> reconnectAttempts := 1, state := RECONNECTING, stream := None,
        sseParser := newParser, sessionId := None \<rparr>,
      [Emit_stateChange RECONNECTING, Emit_reconnecting 1, AwaitDelayThenConnect 1000])"
proof -
  have "\<not> streamIsOpen failedStreamTransport"
    "int (reconnectAttempts failedStreamTransport) < maxReconnectAttempts defaultOptions"
    by (simp_all add: streamIsOpen_def failedStreamTransport_def connectedTransport_def
          connectingTransport_def newTransport_def defaultOptions_def)
  from reconnect_closed_stream[OF this] show ?thesis
    by (simp add: failedStreamTransport_def connectedTransport_def connectingTransport_def
          newTransport_def defaultOptions_def rejectAll_def)
qed

lemma reconnect_event_calls_reconnect:
  "handleSSEEvent opts JSON_parse script t reconnectEvent = Some (reconnect opts t)"
  by (simp add: handleSSEEvent_def reconnectEvent_def handleReconnectEvent_def)

text \<open>
  C5 (evaluated where the claim fails): a server \<open>reconnect\<close> event reaches a connected
  transport whose stream is open.  \<open>reconnect\<close> increments the counter to 1 and emits
  "reconnecting 1", but its teardown closes the stream, the stream emits \<open>close\<close>
  synchronously, and \<open>handleStreamClose\<close>, which only ignores that event in state \<open>CLOSED\<close>,
  triggers \<open>reconnect\<close> a second time inside the first.  With the default options the one
  trigger therefore ends with the counter at 2, two "reconnecting" notifications and two
  redials scheduled (after 2000 and after 1000).  With \<open>maxReconnectAttempts = 1\<close> the
  nested trigger finds the maximum reached: the transport ends in \<open>DISCONNECTED\<close> with "Max
  reconnect attempts exceeded" emitted, and the redial of the outer call is still scheduled.
\<close>

theorem C5_open_stream_reconnects_twice:
  "handleSSEEvent defaultOptions (\<lambda>d. Inl ''unused'') [] connectedTransport reconnectEvent
     = Some (reconnect defaultOptions connectedTransport)
   \<and> reconnect defaultOptions connectedTransport =
     (connectedTransport\<lparr> state := RECONNECTING, sessionId := None, stream := None,
        sseParser := newParser, reconnectAttempts := 2 \<rparr>,
      [Emit_stateChange RECONNECTING, Emit_reconnecting 1, ZitiClose 1, Emit_reconnecting 2,
       AwaitDelayThenConnect 2000, AwaitDelayThenConnect 1000])
   \<and> reconnect singleAttempt connectedTransport =
     (connectedTransport\<lparr> state := DISCONNECTED, sessionId := None, stream := None,
        sseParser := newParser, reconnectAttempts := 1 \<rparr>,
      [Emit_stateChange RECONNECTING, Emit_reconnecting 1, ZitiClose 1,
       LogError ''Max reconnect attempts (1) exceeded'', Emit_stateChange DISCONNECTED,
       Emit_disconnected ''Max reconnect attempts exceeded'', AwaitDelayThenConnect 1000])"
proof -
  have a: "reconnect defaultOptions connectedTransport =
     (connectedTransport\<lparr> state := RECONNECTING, sessionId := None, stream := None,
        sseParser := newParser, reconnectAttempts := 2 \<rparr>,
      [Emit_stateChange RECONNECTING, Emit_reconnecting 1, ZitiClose 1, Emit_reconnecting 2,
       AwaitDelayThenConnect 2000, AwaitDelayThenConnect 1000])"
    by (simp add: reconnect.simps cleanup.simps handleStreamClose.simps setState_def
          connectedTransport_def connectingTransport_def newTransport_def defaultOptions_def
          rejectAll_def reset_newParser)
  have b: "reconnect singleAttempt connectedTransport =
     (connectedTransport\<lparr> state := DISCONNECTED, sessionId := None, stream := None,
        sseParser := newParser, reconnectAttempts := 1 \<rparr>,
      [Emit_stateChange RECONNECTING, Emit_reconnecting 1, ZitiClose 1,
       LogError ''Max reconnect attempts (1) exceeded'', Emit_stateChange DISCONNECTED,
       Emit_disconnected ''Max reconnect attempts exceeded'', AwaitDelayThenConnect 1000])"
    by (simp add: reconnect.simps cleanup.simps handleStreamClose.simps setState_def
          connectedTransport_def connectingTransport_def newTransport_def defaultOptions_def
          singleAttempt_def rejectAll_def reset_newParser showInt_def showNat.simps
          digitChar_def)
  from a b reconnect_event_calls_reconnect show ?thesis by blast
qed

section \<open>Transport: sending and the queue\<close>

lemma sendImmediate_fails:
  "dispatchFails r \<Longrightarrow>
   sendImmediate r t m = ([HttpPost (sendUrl t) m, LogError (failureText r)], Inl (failureText r))"
  by (auto simp: dispatchFails_def failureText_def sendImmediate_def split: sum.splits)

lemma sendImmediate_ok:
  "\<not> dispatchFails r \<Longrightarrow> sendImmediate r t m = ([HttpPost (sendUrl t) m], Inr ())"
  by (auto simp: dispatchFails_def sendImmediate_def split: sum.splits)

lemma drainLoop_until_failure:
  assumes "isReady t" "\<forall>r\<in>set oks. \<not> dispatchFails r" "dispatchFails bad"
    "length oks < length (messageQueue t)"
  shows "drainLoop (map (\<lambda>r. (r, \<lambda>u. u)) (oks @ bad # later)) t =
           Some (t\<lparr> messageQueue := drop (length oks + 1) (messageQueue t) \<rparr>,
                 map (HttpPost (sendUrl t)) (take (length oks + 1) (messageQueue t))
                   @ [LogError (failureText bad)],
                 Inl (failureText bad))"
  using assms
proof (induction oks arbitrary: t)
  case Nil
  then obtain m ms where q: "messageQueue t = m # ms" by (cases "messageQueue t") auto
  with Nil show ?case by (simp add: sendImmediate_fails)
next
  case (Cons r oks)
  then obtain m ms where q: "messageQueue t = m # ms" by (cases "messageQueue t") auto
  let ?t = "t\<lparr> messageQueue := ms \<rparr>"
  have IH: "drainLoop (map (\<lambda>r. (r, \<lambda>u. u)) (oks @ bad # later)) ?t =
           Some (?t\<lparr> messageQueue := drop (length oks + 1) (messageQueue ?t) \<rparr>,
                 map (HttpPost (sendUrl ?t)) (take (length oks + 1) (messageQueue ?t))
                   @ [LogError (failureText bad)],
                 Inl (failureText bad))"
    using Cons.prems q by (intro Cons.IH) auto
  from Cons.prems have ok: "\<not> dispatchFails r" by simp
  show ?case
    using Cons.prems(1) q IH by (simp add: sendImmediate_ok[OF ok])
qed

lemma drainLoop_normal_exit:
  "drainLoop script t = Some (t', es, Inr u) \<Longrightarrow> messageQueue t' = [] \<or> \<not> isReady t'"
proof (induction script arbitrary: t es)
  case Nil
  then show ?case by (auto split: if_splits)
next
  case (Cons a script)
  obtain r during where a: "a = (r, during)" by (cases a)
  show ?case
  proof (cases "messageQueue t \<noteq> [] \<and> isReady t")
    case False
    with Cons.prems a show ?thesis by auto
  next
    case True
    show ?thesis
    proof (cases "dispatchFails r")
      case True
      with Cons.prems a \<open>messageQueue t \<noteq> [] \<and> isReady t\<close> show ?thesis
        by (simp add: sendImmediate_fails)
    next
      case False
      with Cons.prems a True
      obtain es' where "drainLoop script (during (t\<lparr> messageQueue := tl (messageQueue t) \<rparr>))
                         = Some (t', es', Inr u)"
        by (auto simp: sendImmediate_ok split: option.splits)
      from Cons.IH[OF this] show ?thesis .
    qed
  qed
qed

lemma drainLoop_returns:
  assumes "\<forall>(r, during) \<in> set script.
             \<forall>u. length (messageQueue (during u)) \<le> length (messageQueue u)"
    and "length (messageQueue t) \<le> length script"
  shows "drainLoop script t \<noteq> None"
  using assms
proof (induction script arbitrary: t)
  case Nil
  then show ?case by simp
next
  case (Cons a script)
  obtain r during where a: "a = (r, during)" by (cases a)
  show ?case
  proof (cases "messageQueue t \<noteq> [] \<and> isReady t")
    case False
    with a show ?thesis by auto
  next
    case True
    let ?t = "during (t\<lparr> messageQueue := tl (messageQueue t) \<rparr>)"
    from Cons.prems(1) a have "length (messageQueue ?t) \<le> length (tl (messageQueue t))"
      by (auto dest: spec[of _ "t\<lparr> messageQueue := tl (messageQueue t) \<rparr>"])
    with True Cons.prems(2) have "length (messageQueue ?t) \<le> length script"
      by (cases "messageQueue t") auto
    with Cons.IH[of ?t] Cons.prems(1) have "drainLoop script ?t \<noteq> None" by auto
    with True a show ?thesis
      by (cases "dispatchFails r")
         (auto simp: sendImmediate_fails sendImmediate_ok split: option.splits)
  qed
qed

lemma processQueuedMessages_until_failure:
  assumes "\<not> isProcessingQueue t" "isReady t" "\<forall>r\<in>set oks. \<not> dispatchFails r"
    "dispatchFails bad" "length oks < length (messageQueue t)"
  shows "processQueuedMessages (map (\<lambda>r. (r, \<lambda>u. u)) (oks @ bad # later)) t =
           Some (t\<lparr> messageQueue := drop (length oks + 1) (messageQueue t) \<rparr>,
                 map (HttpPost (sendUrl t)) (take (length oks + 1) (messageQueue t))
                   @ [LogError (failureText bad),
                      LogError (''Error processing queued messages: '' @ failureText bad)])"
proof -
  let ?t = "t\<lparr> isProcessingQueue := True \<rparr>"
  have d: "drainLoop (map (\<lambda>r. (r, \<lambda>u. u)) (oks @ bad # later)) ?t =
           Some (?t\<lparr> messageQueue := drop (length oks + 1) (messageQueue ?t) \<rparr>,
                 map (HttpPost (sendUrl ?t)) (take (length oks + 1) (messageQueue ?t))
                   @ [LogError (failureText bad)],
                 Inl (failureText bad))"
    using assms by (intro drainLoop_until_failure) simp_all
  have "?t\<lparr> messageQueue := q, isProcessingQueue := False \<rparr> = t\<lparr> messageQueue := q \<rparr>" for q
    using assms(1) by (cases t) simp
  then show ?thesis
    using assms(1) d by (simp add: processQueuedMessages_def)
qed

text \<open>
  C6, as the code has it: a failing dispatch ends the drain.  The \<open>try\<close> block of
  \<open>processQueuedMessages\<close> encloses the whole loop, so the exception thrown by
  \<open>sendImmediate\<close> leaves the loop: the failure is logged, the flag \<open>isProcessingQueue\<close> is
  reset, the failed entry has been removed from the queue, and the entries behind it stay in
  the queue without being attempted (when nothing else touches the transport meanwhile, the
  calls made are exactly those for the entries up to the failing one).  When no dispatch
  fails, the loop ends only with an empty queue or a transport that is no longer ready.  The
  loop does end: a script with as many entries as there are queued messages decides the run,
  provided the handlers running meanwhile do not add to the queue.
\<close>

theorem C6_drain_stops_at_first_failure:
  "(\<not> isProcessingQueue t \<and> isReady t \<and> (\<forall>r\<in>set oks. \<not> dispatchFails r)
      \<and> dispatchFails bad \<and> length oks < length (messageQueue t) \<longrightarrow>
      processQueuedMessages (map (\<lambda>r. (r, \<lambda>u. u)) (oks @ bad # later)) t =
        Some (t\<lparr> messageQueue := drop (length oks + 1) (messageQueue t) \<rparr>,
              map (HttpPost (sendUrl t)) (take (length oks + 1) (messageQueue t))
                @ [LogError (failureText bad),
                   LogError (''Error processing queued messages: '' @ failureText bad)]))
   \<and> (messageQueue t \<noteq> [] \<and> isReady t \<and> dispatchFails bad \<longrightarrow>
        drainLoop ((bad, during) # script) t =
          Some (during (t\<lparr> messageQueue := tl (messageQueue t) \<rparr>),
                [HttpPost (sendUrl t) (hd (messageQueue t)), LogError (failureText bad)],
                Inl (failureText bad)))
   \<and> (drainLoop script t = Some (t', es, Inr u) \<longrightarrow> messageQueue t' = [] \<or> \<not> isReady t')
   \<and> ((\<forall>(r, during) \<in> set script.
          \<forall>u. length (messageQueue (during u)) \<le> length (messageQueue u))
        \<and> length (messageQueue t) \<le> length script \<longrightarrow> drainLoop script t \<noteq> None)"
proof (intro conjI impI)
  assume "\<not> isProcessingQueue t \<and> isReady t \<and> (\<forall>r\<in>set oks. \<not> dispatchFails r)
      \<and> dispatchFails bad \<and> length oks < length (messageQueue t)"
  then show "processQueuedMessages (map (\<lambda>r. (r, \<lambda>u. u)) (oks @ bad # later)) t =
        Some (t\<lparr> messageQueue := drop (length oks + 1) (messageQueue t) \<rparr>,
              map (HttpPost (sendUrl t)) (take (length oks + 1) (messageQueue t))
                @ [LogError (failureText bad),
                   LogError (''Error processing queued messages: '' @ failureText bad)])"
    by (intro processQueuedMessages_until_failure) simp_all
next
  assume "messageQueue t \<noteq> [] \<and> isReady t \<and> dispatchFails bad"
  then show "drainLoop ((bad, during) # script) t =
          Some (during (t\<lparr> messageQueue := tl (messageQueue t) \<rparr>),
                [HttpPost (sendUrl t) (hd (messageQueue t)), LogError (failureText bad)],
                Inl (failureText bad))"
    by (simp add: sendImmediate_fails)
next
  assume "drainLoop script t = Some (t', es, Inr u)"
  then show "messageQueue t' = [] \<or> \<not> isReady t'" by (rule drainLoop_normal_exit)
next
  assume "(\<forall>(r, during) \<in> set script.
          \<forall>u. length (messageQueue (during u)) \<le> length (messageQueue u))
        \<and> length (messageQueue t) \<le> length script"
  then show "drainLoop script t \<noteq> None" by (intro drainLoop_returns) simp_all
qed

lemma queuedTransport_facts:
  "\<not> isProcessingQueue queuedTransport" "isReady queuedTransport"
  "messageQueue queuedTransport = [notification ''msg1'', notification ''msg2'']"
  "sendUrl queuedTransport = ''/message?sessionId=abc123''"
  by (simp_all add: queuedTransport_def connectedTransport_def connectingTransport_def
        newTransport_def isReady_def sendUrl_def messagePath_def)

lemma example_results:
  "dispatchFails serverError" "\<not> dispatchFails accepted"
  "failureText serverError = ''Failed to send message: Server error 500: oops''"
  by (simp_all add: dispatchFails_def failureText_def serverError_def accepted_def showInt_500)

text \<open>
  C6 as the specification states it fails: with two messages queued on a ready transport and
  a server error answering the first dispatch, the second message is never sent; the drain
  returns with the second message still queued and the transport still ready.
\<close>

theorem C6_counterexample:
  "processQueuedMessages [(serverError, \<lambda>u. u), (accepted, \<lambda>u. u)] queuedTransport =
     Some (queuedTransport\<lparr> messageQueue := [notification ''msg2''] \<rparr>,
           [HttpPost ''/message?sessionId=abc123'' (notification ''msg1''),
            LogError ''Failed to send message: Server error 500: oops'',
            LogError ''Error processing queued messages: Failed to send message: Server error 500: oops''])
   \<and> messageQueue (queuedTransport\<lparr> messageQueue := [notification ''msg2''] \<rparr>) \<noteq> []
   \<and> isReady (queuedTransport\<lparr> messageQueue := [notification ''msg2''] \<rparr>)"
  using processQueuedMessages_until_failure[where t = queuedTransport and oks = "[]"
          and bad = serverError and later = "[accepted]"]
  by (simp add: queuedTransport_facts example_results)

theorem C6_witness:
  "\<not> isProcessingQueue queuedTransport \<and> isReady queuedTransport
   \<and> dispatchFails serverError \<and> length ([] :: HttpResult list) < length (messageQueue queuedTransport)
   \<and> processQueuedMessages [(serverError, \<lambda>u. u), (accepted, \<lambda>u. u)] queuedTransport =
       Some (queuedTransport\<lparr> messageQueue := [notification ''msg2''] \<rparr>,
             [HttpPost ''/message?sessionId=abc123'' (notification ''msg1''),
              LogError ''Failed to send message: Server error 500: oops'',
              LogError ''Error processing queued messages: Failed to send message: Server error 500: oops''])
   \<and> messageQueue queuedTransport \<noteq> []
   \<and> drainLoop [(serverError, \<lambda>u. u)] queuedTransport =
       Some (queuedTransport\<lparr> messageQueue := [notification ''msg2''] \<rparr>,
             [HttpPost ''/message?sessionId=abc123'' (notification ''msg1''),
              LogError ''Failed to send message: Server error 500: oops''],
             Inl ''Failed to send message: Server error 500: oops'')
   \<and> drainLoop [(accepted, \<lambda>u. u), (accepted, \<lambda>u. u)] queuedTransport =
       Some (queuedTransport\<lparr> messageQueue := [] \<rparr>,
             [HttpPost ''/message?sessionId=abc123'' (notification ''msg1''),
              HttpPost ''/message?sessionId=abc123'' (notification ''msg2'')],
             Inr ())
   \<and> messageQueue (queuedTransport\<lparr> messageQueue := [] \<rparr>) = []
   \<and> length (messageQueue queuedTransport) \<le> length [(accepted, \<lambda>u::Transport. u), (accepted, \<lambda>u. u)]
   \<and> drainLoop [(accepted, \<lambda>u. u), (accepted, \<lambda>u. u)] queuedTransport \<noteq> None"
proof -
  have run: "drainLoop [(accepted, \<lambda>u. u), (accepted, \<lambda>u. u)] queuedTransport =
       Some (queuedTransport\<lparr> messageQueue := [] \<rparr>,
             [HttpPost ''/message?sessionId=abc123'' (notification ''msg1''),
              HttpPost ''/message?sessionId=abc123'' (notification ''msg2'')],
             Inr ())"
    by (simp add: queuedTransport_facts example_results sendImmediate_ok)
  from C6_drain_stops_at_first_failure[where t = queuedTransport and oks = "[]"
         and bad = serverError and later = "[accepted]" and during = "\<lambda>u. u" and script = "[]"
         and t' = "queuedTransport\<lparr> messageQueue := [] \<rparr>" and u = "()"
         and es = "[HttpPost ''/message?sessionId=abc123'' (notification ''msg1''),
              HttpPost ''/message?sessionId=abc123'' (notification ''msg2'')]"]
       C6_drain_stops_at_first_failure[where t = queuedTransport and oks = "[]"
         and bad = serverError and later = "[accepted]" and during = "\<lambda>u. u"
         and script = "[(accepted, \<lambda>u. u), (accepted, \<lambda>u. u)]"
         and t' = "queuedTransport\<lparr> messageQueue := [] \<rparr>" and u = "()"
         and es = "[HttpPost ''/message?sessionId=abc123'' (notification ''msg1''),
              HttpPost ''/message?sessionId=abc123'' (notification ''msg2'')]"]
  show ?thesis
    using run by (simp add: queuedTransport_facts example_results)
qed

section \<open>Transport: disconnect\<close>

text \<open>
  C7 as the specification states it fails: on a transport that has never been connected,
  a second \<open>disconnect\<close>, made while the state is already \<open>CLOSED\<close>, emits the disconnect
  notification again.
\<close>

theorem C7_counterexample:
  "state (fst (disconnect defaultOptions newTransport)) = CLOSED
   \<and> snd (disconnect defaultOptions (fst (disconnect defaultOptions newTransport)))
       = [Emit_disconnected ''User requested disconnect'']"
  by (simp add: disconnect_eq rejectAll_def closingEffects_def newTransport_def)

lemma teardown_emits_no_stateChange:
  "Emit_stateChange s \<notin> set (rejectAll ps @ closingEffects t)"
  by (induction ps) (auto simp: rejectAll_def closingEffects_def split: option.splits)

lemma closedPendingTransport_eq:
  "closedPendingTransport = newTransport\<lparr> state := CLOSED,
     messageQueue := [requestMessage 1 ''tools/list''],
     pendingRequests := [(IdNum 1, \<lparr> promise = 7, timeout = 3 \<rparr>)] \<rparr>"
  by (simp add: closedPendingTransport_def disconnect_eq request_def send_def isReady_def
        requestMessage_def newTransport_def)

text \<open>
  C7, as the code has it: every call of \<open>disconnect\<close> leaves the transport \<open>CLOSED\<close> and runs
  the teardown: it rejects every request pending at that moment, closes the stream if one is
  open, resets the parser, clears the session id, and then emits the disconnect
  notification.  The state change to \<open>CLOSED\<close> is emitted only when the state was not
  \<open>CLOSED\<close> before: a call made while the transport is already \<open>CLOSED\<close> emits no state change,
  but it still runs the teardown and still emits the notification.  When the second call
  follows the first with nothing in between, the teardown finds nothing to release: no field
  of the transport changes and the notification is the call's only effect.
\<close>

theorem C7_disconnect_twice:
  "fst (disconnect opts t) =
       t\<lparr> state := CLOSED, pendingRequests := [], stream := None, sseParser := newParser,
           sessionId := None \<rparr>
   \<and> state (fst (disconnect opts t)) = CLOSED
   \<and> snd (disconnect opts t) =
       (if state t \<noteq> CLOSED then [Emit_stateChange CLOSED] else [])
        @ rejectAll (pendingRequests t) @ closingEffects t
        @ [Emit_disconnected ''User requested disconnect'']
   \<and> (state t = CLOSED \<longrightarrow>
        snd (disconnect opts t) =
          rejectAll (pendingRequests t) @ closingEffects t
          @ [Emit_disconnected ''User requested disconnect'']
        \<and> (\<forall>s. Emit_stateChange s \<notin> set (snd (disconnect opts t))))
   \<and> fst (disconnect opts (fst (disconnect opts t))) = fst (disconnect opts t)
   \<and> snd (disconnect opts (fst (disconnect opts t))) =
        [Emit_disconnected ''User requested disconnect'']"
proof -
  have closed: "snd (disconnect opts t) =
          rejectAll (pendingRequests t) @ closingEffects t
          @ [Emit_disconnected ''User requested disconnect'']
        \<and> (\<forall>s. Emit_stateChange s \<notin> set (snd (disconnect opts t)))"
    if "state t = CLOSED"
    using that teardown_emits_no_stateChange[of _ "pendingRequests t" t]
    by (simp add: disconnect_eq)
  have rest: "fst (disconnect opts t) =
       t\<lparr> state := CLOSED, pendingRequests := [], stream := None, sseParser := newParser,
           sessionId := None \<rparr>
   \<and> state (fst (disconnect opts t)) = CLOSED
   \<and> snd (disconnect opts t) =
       (if state t \<noteq> CLOSED then [Emit_stateChange CLOSED] else [])
        @ rejectAll (pendingRequests t) @ closingEffects t
        @ [Emit_disconnected ''User requested disconnect'']
   \<and> fst (disconnect opts (fst (disconnect opts t))) = fst (disconnect opts t)
   \<and> snd (disconnect opts (fst (disconnect opts t))) =
        [Emit_disconnected ''User requested disconnect'']"
    by (simp add: disconnect_eq rejectAll_def closingEffects_def)
  from closed rest show ?thesis by blast
qed

theorem C7_witness:
  "state closedPendingTransport = CLOSED
   \<and> pendingRequests closedPendingTransport = [(IdNum 1, \<lparr> promise = 7, timeout = 3 \<rparr>)]
   \<and> snd (disconnect defaultOptions closedPendingTransport) =
       [ClearTimeout 3, Reject 7 ''Transport disconnected'',
        Emit_disconnected ''User requested disconnect'']
   \<and> pendingRequests (fst (disconnect defaultOptions closedPendingTransport)) = []
   \<and> state (fst (disconnect defaultOptions closedPendingTransport)) = CLOSED"
proof -
  have h: "state closedPendingTransport = CLOSED"
    by (simp add: closedPendingTransport_eq)
  from C7_disconnect_twice[where t = closedPendingTransport and opts = defaultOptions] h
  show ?thesis
    by (simp add: closedPendingTransport_eq rejectAll_def closingEffects_def newTransport_def)
qed

text \<open>
  C8 (evaluated where the claim fails): \<open>disconnect\<close> leaves the transport in \<open>CLOSED\<close> with
  no session id, whatever the state before.  \<open>checkSession\<close> rejects with "Connection closed
  before session established" only in state \<open>DISCONNECTED\<close>, so in the state left by
  \<open>disconnect\<close> it schedules itself again; as long as the transport stays in that state,
  \<open>waitForSession\<close> is settled by the connect timer alone, with "Session establishment
  timeout", and the \<open>catch\<close> block of \<open>connect\<close> then moves the closed transport to
  \<open>DISCONNECTED\<close> and throws "Failed to connect: Session establishment timeout".
\<close>

theorem C8_disconnect_not_seen_by_handshake_wait:
  "checkSession (fst (disconnect opts t)) = PollAgain
   \<and> waitForSession (fst (disconnect opts t)) (replicate n (fst (disconnect opts t)))
       = Inl ''Session establishment timeout''
   \<and> connect_catch (fst (disconnect opts t)) ''Session establishment timeout''
       = ((fst (disconnect opts t))\<lparr> state := DISCONNECTED \<rparr>,
          [Emit_stateChange DISCONNECTED,
           LogError ''Connection failed: Session establishment timeout''],
          ''Failed to connect: Session establishment timeout'')"
proof -
  have a: "checkSession (fst (disconnect opts t)) = PollAgain"
    by (simp add: disconnect_eq checkSession_def)
  have "waitForSession u (replicate n u) = Inl ''Session establishment timeout''"
    if "checkSession u = PollAgain" for u
    using that by (induction n) simp_all
  with a have b: "waitForSession (fst (disconnect opts t)) (replicate n (fst (disconnect opts t)))
       = Inl ''Session establishment timeout''" by blast
  have c: "connect_catch (fst (disconnect opts t)) ''Session establishment timeout''
       = ((fst (disconnect opts t))\<lparr> state := DISCONNECTED \<rparr>,
          [Emit_stateChange DISCONNECTED,
           LogError ''Connection failed: Session establishment timeout''],
          ''Failed to connect: Session establishment timeout'')"
    by (simp add: connect_catch_def setState_eq disconnect_eq)
  from a b c show ?thesis by blast
qed

section \<open>Transport: the status of a send response\<close>

text \<open>
  C9 as the specification states it fails twice on a ready transport: for status 500 the
  error of the failed \<open>send\<close> is not "Server error 500: oops" but that text wrapped by the
  \<open>catch\<close> block of \<open>sendImmediate\<close>; and status 302, which is not a success status, makes
  \<open>send\<close> succeed.
\<close>

theorem C9_counterexample:
  "isReady connectedTransport
   \<and> snd (snd (send serverError connectedTransport (notification ''ping'')))
       = Inl ''Failed to send message: Server error 500: oops''
   \<and> snd (snd (send serverError connectedTransport (notification ''ping'')))
       \<noteq> Inl ''Server error 500: oops''
   \<and> snd (snd (send (Inr \<lparr> status = 302, body = ''Found'' \<rparr>) connectedTransport
                  (notification ''ping''))) = Inr ()"
  by (simp add: connectedTransport_ready send_def sendImmediate_def serverError_def showInt_500)

text \<open>
  C9, as the code has it: for a \<open>send\<close> dispatched while the transport is ready, a response
  status of 400 or more makes the call fail with the error
  "Failed to send message: Server error <status>: <body>" (which is also logged), and any
  status below 400 makes it succeed.  In both cases the transport is left exactly as it was
  and the only call made is the HTTP request: no reconnection is triggered.
\<close>

theorem C9_send_status:
  assumes "isReady t"
  shows "(status response \<ge> 400 \<longrightarrow>
            send (Inr response) t message =
              (t, [HttpPost (sendUrl t) message,
                   LogError (''Failed to send message: Server error '' @ showInt (status response)
                              @ '': '' @ body response)],
               Inl (''Failed to send message: Server error '' @ showInt (status response)
                     @ '': '' @ body response)))
       \<and> (status response < 400 \<longrightarrow>
            send (Inr response) t message = (t, [HttpPost (sendUrl t) message], Inr ()))"
  using assms by (simp add: send_def sendImmediate_def)

theorem C9_witness:
  "isReady connectedTransport
   \<and> status \<lparr> status = 500, body = ''oops'' \<rparr> \<ge> 400
   \<and> send (Inr \<lparr> status = 500, body = ''oops'' \<rparr>) connectedTransport (notification ''ping'') =
       (connectedTransport,
        [HttpPost ''/message?sessionId=abc123'' (notification ''ping''),
         LogError ''Failed to send message: Server error 500: oops''],
        Inl ''Failed to send message: Server error 500: oops'')
   \<and> status \<lparr> status = 202, body = ''Accepted'' \<rparr> < 400
   \<and> send (Inr \<lparr> status = 202, body = ''Accepted'' \<rparr>) connectedTransport (notification ''ping'') =
       (connectedTransport, [HttpPost ''/message?sessionId=abc123'' (notification ''ping'')],
        Inr ())"
  using C9_send_status[OF connectedTransport_ready,
          where response = "\<lparr> status = 500, body = ''oops'' \<rparr>" and message = "notification ''ping''"]
        C9_send_status[OF connectedTransport_ready,
          where response = "\<lparr> status = 202, body = ''Accepted'' \<rparr>"
            and message = "notification ''ping''"]
  by (simp add: connectedTransport_ready sendUrl_connected showInt_500)

end
